theory Spec2Isabelle
  imports Main
begin

section \<open>The action \<open>SetParametersFromFiles\<close> of launch_ros\<close>

text \<open>
  Source: \<^verbatim>\<open>launch_ros/actions/set_parameters_from_files.py\<close>.
  The class stores one list of substitutions per file name (\<^verbatim>\<open>__init__\<close>), and its
  \<^verbatim>\<open>execute\<close> resolves each of them against the launch context and appends the resulting
  string to the list bound to the key \<^verbatim>\<open>global_params\<close> of
  \<^verbatim>\<open>context.launch_configurations\<close>. The append is Python's in-place
  \<^verbatim>\<open>list.append\<close>, so list objects live in an explicit store and the configurations hold
  references into it.
\<close>

subsection \<open>Python values, exceptions, the launch context\<close>

datatype exn =
    InvalidSubstitutionInput
  | SubstitutionResolutionError string
  | AttributeError
  | TypeError

type_synonym addr = nat

text \<open>
  A value bound in \<^verbatim>\<open>launch_configurations\<close>, or held in a list: a string, or a reference to
  a list object of the store.
\<close>

datatype pyval = Str string | Ref addr

type_synonym store = "pyval list list"

text \<open>
  The part of \<^verbatim>\<open>LaunchContext\<close> that the action and the substitutions use: the
  dictionary \<^verbatim>\<open>launch_configurations\<close> and the environment.
\<close>

record LaunchContext =
  launch_configurations :: "string \<rightharpoonup> pyval"
  environment :: "string \<rightharpoonup> string"

text \<open>The state of one launch run: the context object and the store of list objects.\<close>

record world =
  ctx :: LaunchContext
  store :: store

subsection \<open>Substitutions (package \<open>launch\<close>, used through its interface)\<close>

text \<open>
  Modelled from the spec: the class \<^verbatim>\<open>Substitution\<close> of the package \<^verbatim>\<open>launch\<close> is not part
  of the source file. The spec (section 2) gives its one capability: given a resolution
  context, produce a string; a failure is an error of the primitive's own (section 7). A
  literal text resolves to itself. Every other substitution is given by its
  \<^verbatim>\<open>perform\<close> function, which reads the context object and has no effect (section 4.2: the
  canonical primitives are side-effect-free).
\<close>

datatype substitution =
    TextSubstitution string
  | Substitution "LaunchContext \<Rightarrow> exn + string"

fun perform :: "substitution \<Rightarrow> LaunchContext \<Rightarrow> exn + string" where
  "perform (TextSubstitution t) c = Inr t"
| "perform (Substitution f) c = f c"

text \<open>
  Modelled from the spec: \<^verbatim>\<open>perform_substitutions\<close> of \<^verbatim>\<open>launch.utilities\<close> is not part of
  the source file. Spec, section 4.2: resolve every substitution of the sequence against
  the context, in order, and concatenate the resulting strings into one string; an error
  of a substitution propagates.
\<close>

fun perform_substitutions :: "LaunchContext \<Rightarrow> substitution list \<Rightarrow> exn + string" where
  "perform_substitutions c [] = Inr []"
| "perform_substitutions c (s # subs) =
     (case perform s c of
        Inl e \<Rightarrow> Inl e
      | Inr t \<Rightarrow>
          (case perform_substitutions c subs of
             Inl e \<Rightarrow> Inl e
           | Inr u \<Rightarrow> Inr (t @ u)))"

subsection \<open>Constructor arguments and the normalizer\<close>

text \<open>
  What a caller can pass where \<^verbatim>\<open>SomeSubstitutionsType\<close> or an iterable of it is expected:
  a text, a substitution, a list of such values, or a value of another type (an integer,
  a condition object).
\<close>

datatype py_input =
    Text string
  | Subst substitution
  | Items "py_input list"
  | Other

text \<open>
  Modelled from the spec: \<^verbatim>\<open>normalize_to_list_of_substitutions\<close> of \<^verbatim>\<open>launch.utilities\<close> is
  not part of the source file. Spec, section 4.1: a single text or substitution gives a
  one-element sequence; a sequence is returned in order, each raw text wrapped as a
  literal-text substitution; an element that is neither text nor a substitution fails with
  \<open>InvalidSubstitutionInput\<close>.
\<close>

fun normalize_element :: "py_input \<Rightarrow> exn + substitution" where
  "normalize_element (Subst s) = Inr s"
| "normalize_element (Text t) = Inr (TextSubstitution t)"
| "normalize_element (Items ys) = Inl InvalidSubstitutionInput"
| "normalize_element Other = Inl InvalidSubstitutionInput"

fun normalize_each :: "py_input list \<Rightarrow> exn + substitution list" where
  "normalize_each [] = Inr []"
| "normalize_each (y # ys) =
     (case normalize_element y of
        Inl e \<Rightarrow> Inl e
      | Inr s \<Rightarrow>
          (case normalize_each ys of
             Inl e \<Rightarrow> Inl e
           | Inr ss \<Rightarrow> Inr (s # ss)))"

fun normalize_to_list_of_substitutions :: "py_input \<Rightarrow> exn + substitution list" where
  "normalize_to_list_of_substitutions (Text t) = Inr [TextSubstitution t]"
| "normalize_to_list_of_substitutions (Subst s) = Inr [s]"
| "normalize_to_list_of_substitutions (Items ys) = normalize_each ys"
| "normalize_to_list_of_substitutions Other = Inl InvalidSubstitutionInput"

text \<open>
  Python's iteration protocol, for \<^verbatim>\<open>for filename in filenames\<close>: a list yields its
  elements, a string its characters as one-character strings, and a value that is not
  iterable raises \<^verbatim>\<open>TypeError\<close>.
\<close>

fun iterate :: "py_input \<Rightarrow> exn + py_input list" where
  "iterate (Items ys) = Inr ys"
| "iterate (Text t) = Inr (map (\<lambda>ch. Text [ch]) t)"
| "iterate (Subst s) = Inl TypeError"
| "iterate Other = Inl TypeError"

subsection \<open>The class\<close>

record SetParametersFromFiles =
  input_files :: "substitution list list"

type_synonym kwargs = "string \<rightharpoonup> py_input"

text \<open>
  Lines 70 to 72: \<^verbatim>\<open>self._input_files = []\<close>, then one \<^verbatim>\<open>append\<close> of the normalized
  value per element. The accumulator is the list built so far.
\<close>

fun init_loop :: "py_input list \<Rightarrow> substitution list list \<Rightarrow> exn + substitution list list" where
  "init_loop [] acc = Inr acc"
| "init_loop (filename # rest) acc =
     (case normalize_to_list_of_substitutions filename of
        Inl e \<Rightarrow> Inl e
      | Inr subs \<Rightarrow> init_loop rest (acc @ [subs]))"

text \<open>
  \<^verbatim>\<open>__init__(self, filenames, **kwargs)\<close>. The constructor of the base class \<^verbatim>\<open>Action\<close>
  (line 69) belongs to the package \<^verbatim>\<open>launch\<close>; it is the parameter \<open>super_init\<close>, which
  returns the exception it raises, if any.
\<close>

definition init ::
  "(kwargs \<Rightarrow> exn option) \<Rightarrow> py_input \<Rightarrow> kwargs \<Rightarrow> exn + SetParametersFromFiles" where
  "init super_init filenames kw =
     (case super_init kw of
        Some e \<Rightarrow> Inl e
      | None \<Rightarrow>
          (case iterate filenames of
             Inl e \<Rightarrow> Inl e
           | Inr items \<Rightarrow>
               (case init_loop items [] of
                  Inl e \<Rightarrow> Inl e
                | Inr files \<Rightarrow> Inr \<lparr>input_files = files\<rparr>)))"

text \<open>
  The call \<^verbatim>\<open>cls(**kwargs)\<close>: Python binds the keyword arguments to the parameters of
  \<^verbatim>\<open>__init__\<close> before its body runs. The parameter \<^verbatim>\<open>filenames\<close> has no default, so a
  dictionary without that key raises \<^verbatim>\<open>TypeError\<close>; the other entries go to \<^verbatim>\<open>**kwargs\<close>.
\<close>

definition call_with_kwargs ::
  "(kwargs \<Rightarrow> exn option) \<Rightarrow> kwargs \<Rightarrow> exn + SetParametersFromFiles" where
  "call_with_kwargs super_init kw =
     (case kw ''filenames'' of
        None \<Rightarrow> Inl TypeError
      | Some filenames \<Rightarrow> init super_init filenames (kw(''filenames'' := None)))"

subsection \<open>\<open>parse\<close>\<close>

text \<open>
  An entity of the front end is the map of its attributes; \<^verbatim>\<open>get_attr\<close> of an attribute
  that the entity lacks raises. \<^verbatim>\<open>Action.parse\<close> (\<open>super_parse\<close>) and
  \<^verbatim>\<open>parser.parse_substitution\<close> belong to the package \<^verbatim>\<open>launch\<close> and are parameters.
\<close>

type_synonym entity = "string \<rightharpoonup> string"

datatype action_class = SetParametersFromFiles_class

definition get_attr :: "entity \<Rightarrow> string \<Rightarrow> exn + string" where
  "get_attr ent name = (case ent name of None \<Rightarrow> Inl AttributeError | Some v \<Rightarrow> Inr v)"

definition parse ::
  "(entity \<Rightarrow> exn + kwargs) \<Rightarrow> (string \<Rightarrow> exn + substitution list) \<Rightarrow> entity
     \<Rightarrow> exn + action_class \<times> kwargs" where
  "parse super_parse parse_substitution ent =
     (case super_parse ent of
        Inl e \<Rightarrow> Inl e
      | Inr kw \<Rightarrow>
          (case get_attr ent ''filename'' of
             Inl e \<Rightarrow> Inl e
           | Inr a \<Rightarrow>
               (case parse_substitution a of
                  Inl e \<Rightarrow> Inl e
                | Inr subs \<Rightarrow>
                    Inr (SetParametersFromFiles_class,
                         kw(''filename'' \<mapsto> Items (map Subst subs))))))"

subsection \<open>\<open>execute\<close>\<close>

text \<open>The literal \<^verbatim>\<open>[]\<close> creates a new, empty list object.\<close>

definition new_list :: "store \<Rightarrow> pyval \<times> store" where
  "new_list st = (Ref (length st), st @ [[]])"

text \<open>\<^verbatim>\<open>d.get(k, default)\<close>: the value bound to the key, the default when there is none.\<close>

definition dict_get :: "(string \<rightharpoonup> pyval) \<Rightarrow> string \<Rightarrow> pyval \<Rightarrow> pyval" where
  "dict_get d k dflt = (case d k of None \<Rightarrow> dflt | Some v \<Rightarrow> v)"

text \<open>
  The list object a value refers to, if it refers to one. A string is not a list; a
  reference beyond the store does not arise in Python and refers to no list either.
\<close>

definition list_of :: "store \<Rightarrow> pyval \<Rightarrow> pyval list option" where
  "list_of st v =
     (case v of
        Str s \<Rightarrow> None
      | Ref a \<Rightarrow> (if a < length st then Some (st ! a) else None))"

text \<open>
  \<^verbatim>\<open>target.append(v)\<close>: in place, on the list object itself. A value with no \<^verbatim>\<open>append\<close>
  raises \<^verbatim>\<open>AttributeError\<close>.
\<close>

definition list_append :: "store \<Rightarrow> pyval \<Rightarrow> pyval \<Rightarrow> exn + store" where
  "list_append st target v =
     (case target of
        Str s \<Rightarrow> Inl AttributeError
      | Ref a \<Rightarrow>
          (if a < length st then Inr (st[a := st ! a @ [v]]) else Inl AttributeError))"

text \<open>
  Lines 84 to 86. When \<^verbatim>\<open>perform_substitutions\<close> or \<^verbatim>\<open>append\<close> raises, the loop ends there
  and the store keeps what the earlier iterations appended.
\<close>

fun execute_loop ::
  "LaunchContext \<Rightarrow> pyval \<Rightarrow> substitution list list \<Rightarrow> store \<Rightarrow> (exn + unit) \<times> store" where
  "execute_loop c global_param_list [] st = (Inr (), st)"
| "execute_loop c global_param_list (input_file # rest) st =
     (case perform_substitutions c input_file of
        Inl e \<Rightarrow> (Inl e, st)
      | Inr filename \<Rightarrow>
          (case list_append st global_param_list (Str filename) of
             Inl e \<Rightarrow> (Inl e, st)
           | Inr st' \<Rightarrow> execute_loop c global_param_list rest st'))"

text \<open>
  \<^verbatim>\<open>execute(self, context)\<close>: the result is the exception raised, or \<open>()\<close> for a normal
  return, and the state the call leaves behind. Line 87, the write-back of the key, runs
  only when the loop has ended normally.
\<close>

definition execute :: "SetParametersFromFiles \<Rightarrow> world \<Rightarrow> (exn + unit) \<times> world" where
  "execute self w =
     (let (dflt, st0) = new_list (store w);
          global_param_list = dict_get (launch_configurations (ctx w)) ''global_params'' dflt
      in case execute_loop (ctx w) global_param_list (input_files self) st0 of
           (Inl e, st1) \<Rightarrow> (Inl e, w\<lparr>store := st1\<rparr>)
         | (Inr u, st1) \<Rightarrow>
             (Inr (),
              \<lparr>ctx = (ctx w)\<lparr>launch_configurations :=
                       (launch_configurations (ctx w))(''global_params'' \<mapsto> global_param_list)\<rparr>,
               store = st1\<rparr>))"

subsection \<open>Reading the state\<close>

text \<open>
  What \<^verbatim>\<open>launch_configurations.get('global_params', [])\<close> denotes as a list: the empty list
  when the key is absent, the contents of the list object when the key is bound to one,
  and nothing when the key is bound to a value that is not a list.
\<close>

definition read_global_params :: "world \<Rightarrow> pyval list option" where
  "read_global_params w =
     (case launch_configurations (ctx w) ''global_params'' of
        None \<Rightarrow> Some []
      | Some v \<Rightarrow> list_of (store w) v)"

subsection \<open>The call of \<open>execute\<close>, with everything it can reach\<close>



subsection \<open>Notions used to state the properties\<close>

text \<open>
  The file name a constructor argument stands for in a context: the argument is
  normalized when the action is built and the resulting sequence is resolved when the
  action is executed.
\<close>

definition resolve :: "LaunchContext \<Rightarrow> py_input \<Rightarrow> exn + string" where
  "resolve c f =
     (case normalize_to_list_of_substitutions f of
        Inl e \<Rightarrow> Inl e
      | Inr subs \<Rightarrow> perform_substitutions c subs)"

text \<open>
  The inputs the normalizer accepts: a text, a substitution, or a list whose elements are
  texts and substitutions.
\<close>

fun atomic :: "py_input \<Rightarrow> bool" where
  "atomic (Text t) = True"
| "atomic (Subst s) = True"
| "atomic (Items ys) = False"
| "atomic Other = False"

fun acceptable :: "py_input \<Rightarrow> bool" where
  "acceptable (Items ys) = list_all atomic ys"
| "acceptable f = atomic f"

subsection \<open>Example inputs\<close>

text \<open>
  An action built with no further keyword arguments, a base-class constructor that
  accepts them, a substitution that looks a variable up in the environment, and two
  states: one where \<^verbatim>\<open>global_params\<close> is bound to a list object and one where the key is
  absent.
\<close>

definition no_kwargs :: "kwargs" where
  "no_kwargs = Map.empty"

definition action_init_ok :: "kwargs \<Rightarrow> exn option" where
  "action_init_ok kw = None"

definition env_var :: "string \<Rightarrow> substitution" where
  "env_var name =
     Substitution (\<lambda>c. case environment c name of
                          None \<Rightarrow> Inl (SubstitutionResolutionError name)
                        | Some v \<Rightarrow> Inr v)"

definition world_bound :: world where
  "world_bound =
     \<lparr>ctx = \<lparr>launch_configurations =
                [''use_sim_time'' \<mapsto> Str ''true'', ''global_params'' \<mapsto> Ref 1],
             environment = [''ENV_VAR'' \<mapsto> ''/etc/p.yaml'']\<rparr>,
      store = [[Str ''unrelated''], [Str ''first.yaml'']]\<rparr>"

definition world_absent :: world where
  "world_absent =
     \<lparr>ctx = \<lparr>launch_configurations = [''use_sim_time'' \<mapsto> Str ''true''],
             environment = [''ENV_VAR'' \<mapsto> ''/etc/p.yaml'']\<rparr>,
      store = [[Str ''unrelated'']]\<rparr>"



section \<open>Properties\<close>

subsection \<open>The normalizer and the constructor\<close>

lemma normalize_error: "normalize_element y = Inl e \<Longrightarrow> e = InvalidSubstitutionInput"
  by (cases y) auto

lemma normalize_each_error: "normalize_each ys = Inl e \<Longrightarrow> e = InvalidSubstitutionInput"
  by (induction ys arbitrary: e) (auto split: sum.splits dest: normalize_error)

lemma normalize_to_list_error:
  "normalize_to_list_of_substitutions f = Inl e \<Longrightarrow> e = InvalidSubstitutionInput"
  by (cases f) (auto dest: normalize_each_error)

lemma init_loop_closed:
  "init_loop fs acc =
     (if list_all (\<lambda>f. \<not> isl (normalize_to_list_of_substitutions f)) fs
      then Inr (acc @ map (\<lambda>f. projr (normalize_to_list_of_substitutions f)) fs)
      else Inl InvalidSubstitutionInput)"
proof (induction fs arbitrary: acc)
  case Nil
  show ?case by simp
next
  case (Cons f fs)
  show ?case
  proof (cases "normalize_to_list_of_substitutions f")
    case (Inl e)
    then show ?thesis using normalize_to_list_error [OF Inl] by simp
  next
    case (Inr subs)
    then show ?thesis using Cons.IH [of "acc @ [subs]"] by simp
  qed
qed
lemma init_files:
  assumes "init super_init (Items filenames) kw = Inr self"
  shows "map Inr (input_files self) = map normalize_to_list_of_substitutions filenames"
proof -
  from assms obtain files where
    loop: "init_loop filenames [] = Inr files" and self: "self = \<lparr>input_files = files\<rparr>"
    by (auto simp: init_def split: option.splits sum.splits)
  from loop have ok: "list_all (\<lambda>f. \<not> isl (normalize_to_list_of_substitutions f)) filenames"
    and files: "files = map (\<lambda>f. projr (normalize_to_list_of_substitutions f)) filenames"
    by (auto simp: init_loop_closed split: if_splits)
  have "map Inr files = map normalize_to_list_of_substitutions filenames"
    unfolding files using ok by (induction filenames) (auto simp: isl_def)
  with self show ?thesis by simp
qed

lemma init_resolve:
  assumes "init super_init (Items filenames) kw = Inr self"
  shows "map (perform_substitutions c) (input_files self) = map (resolve c) filenames"
proof -
  have "map (case_sum Inl (perform_substitutions c)) (map Inr (input_files self)) =
        map (case_sum Inl (perform_substitutions c))
          (map normalize_to_list_of_substitutions filenames)"
    using init_files [OF assms] by simp
  then show ?thesis by (simp add: resolve_def comp_def)
qed
lemma init_no_files:
  assumes "init super_init (Items []) kw = Inr self"
  shows "input_files self = []"
  using init_files [OF assms] by simp
lemma acceptable_iff: "acceptable f \<longleftrightarrow> \<not> isl (normalize_to_list_of_substitutions f)"
proof -
  have atom: "atomic y \<longleftrightarrow> \<not> isl (normalize_element y)" for y
    by (cases y) simp_all
  have each: "list_all atomic ys \<longleftrightarrow> \<not> isl (normalize_each ys)" for ys
    by (induction ys) (auto simp: atom split: sum.splits)
  show ?thesis by (cases f) (simp_all add: each)
qed

lemma normalize_each_nth:
  "normalize_each ys = Inr ss \<Longrightarrow>
   length ss = length ys \<and> (\<forall>i < length ys. normalize_element (ys ! i) = Inr (ss ! i))"
proof (induction ys arbitrary: ss)
  case Nil
  then show ?case by simp
next
  case (Cons y ys)
  from Cons.prems obtain s ss' where y: "normalize_element y = Inr s"
    and ys: "normalize_each ys = Inr ss'" and ss: "ss = s # ss'"
    by (auto split: sum.splits)
  from Cons.IH [OF ys] y ss show ?case
    by (auto simp: nth_Cons split: nat.splits)
qed

subsection \<open>The loop of \<open>execute\<close>\<close>

lemma execute_loop_ok:
  "a < length st \<Longrightarrow> map (perform_substitutions c) files = map Inr names \<Longrightarrow>
   execute_loop c (Ref a) files st = (Inr (), st[a := st ! a @ map Str names])"
proof (induction files arbitrary: st names)
  case Nil
  then show ?case by simp
next
  case (Cons f files)
  from Cons.prems(2) obtain n ns where
    names: "names = n # ns" and f: "perform_substitutions c f = Inr n"
    and rest: "map (perform_substitutions c) files = map Inr ns"
    by (cases names) auto
  let ?st = "st[a := st ! a @ [Str n]]"
  have "execute_loop c (Ref a) files ?st = (Inr (), ?st[a := ?st ! a @ map Str ns])"
    using Cons.IH [of ?st ns] Cons.prems(1) rest by simp
  then show ?case
    using Cons.prems(1) f names by (simp add: list_append_def)
qed

lemma execute_loop_raise:
  "a < length st \<Longrightarrow> map (perform_substitutions c) pre = map Inr names \<Longrightarrow>
   perform_substitutions c bad = Inl e \<Longrightarrow>
   execute_loop c (Ref a) (pre @ bad # rest) st = (Inl e, st[a := st ! a @ map Str names])"
proof (induction pre arbitrary: st names)
  case Nil
  then show ?case by simp
next
  case (Cons f pre)
  from Cons.prems(2) obtain n ns where
    names: "names = n # ns" and f: "perform_substitutions c f = Inr n"
    and more: "map (perform_substitutions c) pre = map Inr ns"
    by (cases names) auto
  let ?st = "st[a := st ! a @ [Str n]]"
  have "execute_loop c (Ref a) (pre @ bad # rest) ?st = (Inl e, ?st[a := ?st ! a @ map Str ns])"
    using Cons.IH [of ?st ns] Cons.prems(1,3) more by simp
  then show ?case
    using Cons.prems(1) f names by (simp add: list_append_def)
qed



subsection \<open>\<open>execute\<close>\<close>

lemma execute_returns:
  assumes prior: "read_global_params w = Some prior"
      and names: "map (perform_substitutions (ctx w)) (input_files self) = map Inr names"
  shows "fst (execute self w) = Inr ()"
    and "read_global_params (snd (execute self w)) = Some (prior @ map Str names)"
    and "ctx (snd (execute self w)) =
           (ctx w)\<lparr>launch_configurations := (launch_configurations (ctx w))
              (''global_params'' \<mapsto>
                 dict_get (launch_configurations (ctx w)) ''global_params''
                   (Ref (length (store w))))\<rparr>"
proof -
  let ?st0 = "store w @ [[]]"
  have all: "fst (execute self w) = Inr () \<and>
      read_global_params (snd (execute self w)) = Some (prior @ map Str names) \<and>
      ctx (snd (execute self w)) =
           (ctx w)\<lparr>launch_configurations := (launch_configurations (ctx w))
              (''global_params'' \<mapsto>
                 dict_get (launch_configurations (ctx w)) ''global_params''
                   (Ref (length (store w))))\<rparr>"
  proof (cases "launch_configurations (ctx w) ''global_params''")
    case None
    have a: "length (store w) < length ?st0" by simp
    have "execute_loop (ctx w) (Ref (length (store w))) (input_files self) ?st0 =
            (Inr (), ?st0[length (store w) := ?st0 ! length (store w) @ map Str names])"
      by (rule execute_loop_ok [OF a names])
    with None prior show ?thesis
      by (simp add: execute_def new_list_def dict_get_def read_global_params_def list_of_def)
  next
    case (Some v)
    with prior obtain a where v: "v = Ref a" and a: "a < length (store w)"
      and p: "prior = store w ! a"
      by (auto simp: read_global_params_def list_of_def split: pyval.splits if_splits)
    from a have a0: "a < length ?st0" by simp
    have "execute_loop (ctx w) (Ref a) (input_files self) ?st0 =
            (Inr (), ?st0[a := ?st0 ! a @ map Str names])"
      by (rule execute_loop_ok [OF a0 names])
    with Some v a p show ?thesis
      by (simp add: execute_def new_list_def dict_get_def read_global_params_def list_of_def
            nth_append)
  qed
  from all show "fst (execute self w) = Inr ()" by simp
  from all show "read_global_params (snd (execute self w)) = Some (prior @ map Str names)"
    by simp
  from all show "ctx (snd (execute self w)) =
           (ctx w)\<lparr>launch_configurations := (launch_configurations (ctx w))
              (''global_params'' \<mapsto>
                 dict_get (launch_configurations (ctx w)) ''global_params''
                   (Ref (length (store w))))\<rparr>"
    by simp
qed

lemma execute_bound_ctx:
  assumes "launch_configurations (ctx w) ''global_params'' = Some v"
  shows "ctx (snd (execute self w)) = ctx w"
proof -
  have "(launch_configurations (ctx w))(''global_params'' \<mapsto> v) = launch_configurations (ctx w)"
    using assms by (rule map_upd_triv)
  then show ?thesis using assms
    by (simp add: execute_def new_list_def dict_get_def split: prod.splits sum.splits)
qed
lemma execute_raises:
  assumes prior: "read_global_params w = Some prior"
      and files: "input_files self = pre @ bad # rest"
      and names: "map (perform_substitutions (ctx w)) pre = map Inr names"
      and bad: "perform_substitutions (ctx w) bad = Inl e"
  shows "fst (execute self w) = Inl e"
    and "ctx (snd (execute self w)) = ctx w"
    and "case launch_configurations (ctx w) ''global_params'' of
           Some v \<Rightarrow> list_of (store (snd (execute self w))) v = Some (prior @ map Str names)
         | None \<Rightarrow> take (length (store w)) (store (snd (execute self w))) = store w"
proof -
  let ?st0 = "store w @ [[]]"
  have all: "fst (execute self w) = Inl e \<and> ctx (snd (execute self w)) = ctx w \<and>
     (case launch_configurations (ctx w) ''global_params'' of
           Some v \<Rightarrow> list_of (store (snd (execute self w))) v = Some (prior @ map Str names)
         | None \<Rightarrow> take (length (store w)) (store (snd (execute self w))) = store w)"
  proof (cases "launch_configurations (ctx w) ''global_params''")
    case None
    have a: "length (store w) < length ?st0" by simp
    have "execute_loop (ctx w) (Ref (length (store w))) (pre @ bad # rest) ?st0 =
            (Inl e, ?st0[length (store w) := ?st0 ! length (store w) @ map Str names])"
      by (rule execute_loop_raise [OF a names bad])
    with None files show ?thesis
      by (simp add: execute_def new_list_def dict_get_def)
  next
    case (Some v)
    with prior obtain a where v: "v = Ref a" and a: "a < length (store w)"
      and p: "prior = store w ! a"
      by (auto simp: read_global_params_def list_of_def split: pyval.splits if_splits)
    from a have a0: "a < length ?st0" by simp
    have "execute_loop (ctx w) (Ref a) (pre @ bad # rest) ?st0 =
            (Inl e, ?st0[a := ?st0 ! a @ map Str names])"
      by (rule execute_loop_raise [OF a0 names bad])
    with Some v a p files show ?thesis
      by (simp add: execute_def new_list_def dict_get_def list_of_def nth_append)
  qed
  from all show "fst (execute self w) = Inl e" by simp
  from all show "ctx (snd (execute self w)) = ctx w" by simp
  from all show "case launch_configurations (ctx w) ''global_params'' of
           Some v \<Rightarrow> list_of (store (snd (execute self w))) v = Some (prior @ map Str names)
         | None \<Rightarrow> take (length (store w)) (store (snd (execute self w))) = store w"
    by simp
qed

lemma execute_returned_binds:
  assumes "fst (execute self w) = Inr ()"
  shows "launch_configurations (ctx (snd (execute self w))) ''global_params'' =
           Some (dict_get (launch_configurations (ctx w)) ''global_params''
                   (Ref (length (store w))))"
proof -
  let ?g = "dict_get (launch_configurations (ctx w)) ''global_params'' (Ref (length (store w)))"
  obtain r st1 where
    loop: "execute_loop (ctx w) ?g (input_files self) (store w @ [[]]) = (r, st1)"
    by (cases "execute_loop (ctx w) ?g (input_files self) (store w @ [[]])")
  with assms show ?thesis
    by (cases r) (simp_all add: execute_def new_list_def)
qed

lemma execute_no_files:
  assumes "input_files self = []"
  shows "execute self w =
           (Inr (),
            \<lparr>ctx = (ctx w)\<lparr>launch_configurations := (launch_configurations (ctx w))
               (''global_params'' \<mapsto>
                  dict_get (launch_configurations (ctx w)) ''global_params''
                    (Ref (length (store w))))\<rparr>,
             store = store w @ [[]]\<rparr>)"
  using assms by (simp add: execute_def new_list_def)

section \<open>The claims\<close>

subsection \<open>C1: one execution appends the resolved file names, in order\<close>

text \<open>
  C1. Take an action built from the file names \<open>filenames\<close>, a state whose key
  \<^verbatim>\<open>global_params\<close> is absent or bound to a list, read as \<open>prior\<close> (the empty list when the
  key is absent), and let the file names resolve to \<open>names\<close> in the context. Then
  \<^verbatim>\<open>execute\<close> returns normally and leaves \<^verbatim>\<open>global_params\<close> equal to \<open>prior\<close> followed by
  \<open>names\<close>: one entry per file name, in the order of the declaration, nothing sorted and
  nothing removed. The statement holds for the empty list of file names as well.
\<close>

theorem execute_appends_resolved_filenames:
  assumes "init super_init (Items filenames) kw = Inr self"
      and "map (resolve (ctx w)) filenames = map Inr names"
      and "read_global_params w = Some prior"
  shows "fst (execute self w) = Inr () \<and>
         read_global_params (snd (execute self w)) = Some (prior @ map Str names)"
proof -
  have "map (perform_substitutions (ctx w)) (input_files self) = map Inr names"
    using init_resolve [OF assms(1), of "ctx w"] assms(2) by simp
  from execute_returns(1,2) [OF assms(3) this] show ?thesis by simp
qed

theorem execute_appends_resolved_filenames_witness:
  "init action_init_ok (Items [Text ''b.yaml'', Subst (env_var ''ENV_VAR''), Text ''b.yaml''])
       no_kwargs
     = Inr \<lparr>input_files = [[TextSubstitution ''b.yaml''], [env_var ''ENV_VAR''],
                            [TextSubstitution ''b.yaml'']]\<rparr> \<and>
   map (resolve (ctx world_bound))
       [Text ''b.yaml'', Subst (env_var ''ENV_VAR''), Text ''b.yaml'']
     = map Inr [''b.yaml'', ''/etc/p.yaml'', ''b.yaml''] \<and>
   read_global_params world_bound = Some [Str ''first.yaml''] \<and>
   fst (execute \<lparr>input_files = [[TextSubstitution ''b.yaml''], [env_var ''ENV_VAR''],
                                 [TextSubstitution ''b.yaml'']]\<rparr> world_bound) = Inr () \<and>
   read_global_params
     (snd (execute \<lparr>input_files = [[TextSubstitution ''b.yaml''], [env_var ''ENV_VAR''],
                                   [TextSubstitution ''b.yaml'']]\<rparr> world_bound))
     = Some [Str ''first.yaml'', Str ''b.yaml'', Str ''/etc/p.yaml'', Str ''b.yaml'']"
proof -
  let ?fs = "[Text ''b.yaml'', Subst (env_var ''ENV_VAR''), Text ''b.yaml'']"
  let ?self = "\<lparr>input_files = [[TextSubstitution ''b.yaml''], [env_var ''ENV_VAR''],
                                [TextSubstitution ''b.yaml'']]\<rparr>"
  have h1: "init action_init_ok (Items ?fs) no_kwargs = Inr ?self"
    by (simp add: init_def action_init_ok_def)
  have h2: "map (resolve (ctx world_bound)) ?fs = map Inr [''b.yaml'', ''/etc/p.yaml'', ''b.yaml'']"
    by (simp add: resolve_def world_bound_def env_var_def)
  have h3: "read_global_params world_bound = Some [Str ''first.yaml'']"
    by (simp add: read_global_params_def list_of_def world_bound_def)
  from execute_appends_resolved_filenames [OF h1 h2 h3] h1 h2 h3 show ?thesis by simp
qed

subsection \<open>C3: an action with no file names\<close>

text \<open>
  C3, as stated, fails where the key is absent. Line 87 writes the key back whatever the
  loop did, so an action built from an empty list of file names, executed in a state
  without the key \<^verbatim>\<open>global_params\<close>, leaves the key bound to a new list object: the entry
  of the dictionary has changed.
\<close>

theorem empty_action_binds_absent_key:
  "init action_init_ok (Items []) no_kwargs = Inr \<lparr>input_files = []\<rparr> \<and>
   launch_configurations (ctx world_absent) ''global_params'' = None \<and>
   launch_configurations (ctx (snd (execute \<lparr>input_files = []\<rparr> world_absent)))
     ''global_params'' = Some (Ref 1) \<and>
   snd (execute \<lparr>input_files = []\<rparr> world_absent) \<noteq> world_absent"
proof -
  have b: "launch_configurations (ctx (snd (execute \<lparr>input_files = []\<rparr> world_absent)))
     ''global_params'' = Some (Ref 1)"
    by (simp add: execute_def new_list_def dict_get_def world_absent_def)
  have a: "launch_configurations (ctx world_absent) ''global_params'' = None"
    by (simp add: world_absent_def)
  from a b have "snd (execute \<lparr>input_files = []\<rparr> world_absent) \<noteq> world_absent"
    by auto
  moreover have "init action_init_ok (Items []) no_kwargs = Inr \<lparr>input_files = []\<rparr>"
    by (simp add: init_def action_init_ok_def)
  ultimately show ?thesis using a b by simp
qed

text \<open>
  C3, amended. In a state whose key \<^verbatim>\<open>global_params\<close> is absent or bound to a list, the
  execution of an action built from an empty list of file names returns normally and
  leaves the value of \<^verbatim>\<open>global_params\<close>, read with the empty list as default, as it was;
  every list object of the store keeps its contents. A key that was bound keeps its
  binding and the context is unchanged; a key that was absent becomes bound to a new,
  empty list.
\<close>

theorem empty_action_keeps_value:
  assumes "init super_init (Items []) kw = Inr self"
      and "read_global_params w = Some prior"
  shows "fst (execute self w) = Inr () \<and>
         read_global_params (snd (execute self w)) = Some prior \<and>
         take (length (store w)) (store (snd (execute self w))) = store w \<and>
         (case launch_configurations (ctx w) ''global_params'' of
            Some v \<Rightarrow> ctx (snd (execute self w)) = ctx w
          | None \<Rightarrow>
              launch_configurations (ctx (snd (execute self w))) ''global_params''
                = Some (Ref (length (store w))) \<and>
              list_of (store (snd (execute self w))) (Ref (length (store w))) = Some [])"
proof -
  have files: "input_files self = []" using assms(1) by (rule init_no_files)
  then have names: "map (perform_substitutions (ctx w)) (input_files self) = map Inr []"
    by simp
  have r: "fst (execute self w) = Inr ()"
    using execute_returns(1) [OF assms(2) names] .
  have v: "read_global_params (snd (execute self w)) = Some prior"
    using execute_returns(2) [OF assms(2) names] by simp
  have st: "store (snd (execute self w)) = store w @ [[]]"
    by (simp add: execute_no_files [OF files])
  have c: "case launch_configurations (ctx w) ''global_params'' of
            Some v \<Rightarrow> ctx (snd (execute self w)) = ctx w
          | None \<Rightarrow>
              launch_configurations (ctx (snd (execute self w))) ''global_params''
                = Some (Ref (length (store w))) \<and>
              list_of (store (snd (execute self w))) (Ref (length (store w))) = Some []"
  proof (cases "launch_configurations (ctx w) ''global_params''")
    case None
    then show ?thesis
      by (simp add: execute_no_files [OF files] dict_get_def list_of_def)
  next
    case (Some v)
    then show ?thesis by (simp add: execute_bound_ctx)
  qed
  from r v st c show ?thesis by simp
qed

theorem empty_action_keeps_value_witness:
  "init action_init_ok (Items []) no_kwargs = Inr \<lparr>input_files = []\<rparr> \<and>
   read_global_params world_bound = Some [Str ''first.yaml''] \<and>
   read_global_params world_absent = Some [] \<and>
   fst (execute \<lparr>input_files = []\<rparr> world_bound) = Inr () \<and>
   read_global_params (snd (execute \<lparr>input_files = []\<rparr> world_bound))
     = Some [Str ''first.yaml''] \<and>
   ctx (snd (execute \<lparr>input_files = []\<rparr> world_bound)) = ctx world_bound \<and>
   fst (execute \<lparr>input_files = []\<rparr> world_absent) = Inr () \<and>
   read_global_params (snd (execute \<lparr>input_files = []\<rparr> world_absent)) = Some [] \<and>
   launch_configurations (ctx (snd (execute \<lparr>input_files = []\<rparr> world_absent)))
     ''global_params'' = Some (Ref 1)"
proof -
  have h1: "init action_init_ok (Items []) no_kwargs = Inr \<lparr>input_files = []\<rparr>"
    by (simp add: init_def action_init_ok_def)
  have h2: "read_global_params world_bound = Some [Str ''first.yaml'']"
    by (simp add: read_global_params_def list_of_def world_bound_def)
  have h3: "read_global_params world_absent = Some []"
    by (simp add: read_global_params_def world_absent_def)
  have b: "launch_configurations (ctx world_bound) ''global_params'' = Some (Ref 1)"
    by (simp add: world_bound_def)
  have a: "launch_configurations (ctx world_absent) ''global_params'' = None"
    by (simp add: world_absent_def)
  have la: "length (store world_absent) = 1"
    by (simp add: world_absent_def)
  from empty_action_keeps_value [OF h1 h2] empty_action_keeps_value [OF h1 h3] h1 h2 h3 a b la
  show ?thesis by simp
qed

subsection \<open>C4: executing twice appends twice\<close>

text \<open>
  C4. \<^verbatim>\<open>execute\<close> is not idempotent. Take an action built from \<open>filenames\<close> and a state
  whose key \<^verbatim>\<open>global_params\<close> is absent or bound to a list, read as \<open>prior\<close>, and let the
  file names resolve to \<open>names\<close> at each of the two executions (the second one resolves in
  the context the first one leaves, which differs from the first only where the key was
  absent). Then both executions return normally, and \<^verbatim>\<open>global_params\<close> ends as \<open>prior\<close>
  followed by \<open>names\<close> twice: every resolved file name once per execution, in order. With at
  least one file name this differs from the value after one execution.
\<close>

theorem execute_twice_appends_twice:
  assumes "init super_init (Items filenames) kw = Inr self"
      and "read_global_params w = Some prior"
      and "map (resolve (ctx w)) filenames = map Inr names"
      and "map (resolve (ctx (snd (execute self w)))) filenames = map Inr names"
  shows "fst (execute self w) = Inr () \<and>
         read_global_params (snd (execute self w)) = Some (prior @ map Str names) \<and>
         fst (execute self (snd (execute self w))) = Inr () \<and>
         read_global_params (snd (execute self (snd (execute self w))))
           = Some (prior @ map Str names @ map Str names) \<and>
         (filenames \<noteq> [] \<longrightarrow>
            read_global_params (snd (execute self (snd (execute self w))))
              \<noteq> read_global_params (snd (execute self w)))"
proof -
  let ?w1 = "snd (execute self w)"
  have n1: "map (perform_substitutions (ctx w)) (input_files self) = map Inr names"
    using init_resolve [OF assms(1), of "ctx w"] assms(3) by simp
  have n2: "map (perform_substitutions (ctx ?w1)) (input_files self) = map Inr names"
    using init_resolve [OF assms(1), of "ctx ?w1"] assms(4) by simp
  have r1: "fst (execute self w) = Inr ()"
    and v1: "read_global_params ?w1 = Some (prior @ map Str names)"
    using execute_returns(1,2) [OF assms(2) n1] by simp_all
  have r2: "fst (execute self ?w1) = Inr ()"
    and v2: "read_global_params (snd (execute self ?w1))
               = Some ((prior @ map Str names) @ map Str names)"
    using execute_returns(1,2) [OF v1 n2] by simp_all
  have "length names = length filenames"
    using assms(3) by (metis length_map)
  then have "filenames \<noteq> [] \<longrightarrow> names \<noteq> []" by auto
  with r1 v1 r2 v2 show ?thesis by simp
qed

theorem execute_twice_appends_twice_witness:
  "init action_init_ok (Items [Text ''b.yaml'', Subst (env_var ''ENV_VAR'')]) no_kwargs
     = Inr \<lparr>input_files = [[TextSubstitution ''b.yaml''], [env_var ''ENV_VAR'']]\<rparr> \<and>
   read_global_params world_absent = Some [] \<and>
   map (resolve (ctx world_absent)) [Text ''b.yaml'', Subst (env_var ''ENV_VAR'')]
     = map Inr [''b.yaml'', ''/etc/p.yaml''] \<and>
   map (resolve
          (ctx (snd (execute
             \<lparr>input_files = [[TextSubstitution ''b.yaml''], [env_var ''ENV_VAR'']]\<rparr>
             world_absent))))
       [Text ''b.yaml'', Subst (env_var ''ENV_VAR'')]
     = map Inr [''b.yaml'', ''/etc/p.yaml''] \<and>
   read_global_params
     (snd (execute \<lparr>input_files = [[TextSubstitution ''b.yaml''], [env_var ''ENV_VAR'']]\<rparr>
        world_absent))
     = Some [Str ''b.yaml'', Str ''/etc/p.yaml''] \<and>
   read_global_params
     (snd (execute \<lparr>input_files = [[TextSubstitution ''b.yaml''], [env_var ''ENV_VAR'']]\<rparr>
        (snd (execute
           \<lparr>input_files = [[TextSubstitution ''b.yaml''], [env_var ''ENV_VAR'']]\<rparr>
           world_absent))))
     = Some [Str ''b.yaml'', Str ''/etc/p.yaml'', Str ''b.yaml'', Str ''/etc/p.yaml'']"
proof -
  let ?fs = "[Text ''b.yaml'', Subst (env_var ''ENV_VAR'')]"
  let ?self = "\<lparr>input_files = [[TextSubstitution ''b.yaml''], [env_var ''ENV_VAR'']]\<rparr>"
  have h1: "init action_init_ok (Items ?fs) no_kwargs = Inr ?self"
    by (simp add: init_def action_init_ok_def)
  have h2: "read_global_params world_absent = Some []"
    by (simp add: read_global_params_def world_absent_def)
  have h3: "map (resolve (ctx world_absent)) ?fs = map Inr [''b.yaml'', ''/etc/p.yaml'']"
    by (simp add: resolve_def world_absent_def env_var_def)
  have h4: "map (resolve (ctx (snd (execute ?self world_absent)))) ?fs
              = map Inr [''b.yaml'', ''/etc/p.yaml'']"
    by (simp add: resolve_def env_var_def execute_def new_list_def dict_get_def
          list_append_def world_absent_def)
  from execute_twice_appends_twice [OF h1 h2 h3 h4] h1 h2 h3 h4 show ?thesis by simp
qed

subsection \<open>C5: separate declarations accumulate\<close>

text \<open>
  C5. For an action \<open>A\<close> built from \<^verbatim>\<open>["x.yaml"]\<close> and an action \<open>B\<close> built from
  \<^verbatim>\<open>["y.yaml"]\<close>, executing \<open>A\<close> and then \<open>B\<close> in one state, whose key \<^verbatim>\<open>global_params\<close> is
  absent or bound to a list read as \<open>prior\<close>, leaves \<^verbatim>\<open>global_params\<close> equal to \<open>prior\<close>
  followed by \<^verbatim>\<open>"x.yaml"\<close> and then \<^verbatim>\<open>"y.yaml"\<close>.
\<close>

theorem separate_declarations_accumulate:
  assumes "init super_init_A (Items [Text ''x.yaml'']) kw_A = Inr A"
      and "init super_init_B (Items [Text ''y.yaml'']) kw_B = Inr B"
      and "read_global_params w = Some prior"
  shows "fst (execute A w) = Inr () \<and>
         fst (execute B (snd (execute A w))) = Inr () \<and>
         read_global_params (snd (execute B (snd (execute A w))))
           = Some (prior @ [Str ''x.yaml'', Str ''y.yaml''])"
proof -
  let ?w1 = "snd (execute A w)"
  have a: "map (perform_substitutions (ctx w)) (input_files A) = map Inr [''x.yaml'']"
    using init_resolve [OF assms(1), of "ctx w"] by (simp add: resolve_def)
  have b: "map (perform_substitutions (ctx ?w1)) (input_files B) = map Inr [''y.yaml'']"
    using init_resolve [OF assms(2), of "ctx ?w1"] by (simp add: resolve_def)
  have r1: "fst (execute A w) = Inr ()"
    and v1: "read_global_params ?w1 = Some (prior @ map Str [''x.yaml''])"
    using execute_returns(1,2) [OF assms(3) a] by simp_all
  have r2: "fst (execute B ?w1) = Inr ()"
    and v2: "read_global_params (snd (execute B ?w1))
               = Some ((prior @ map Str [''x.yaml'']) @ map Str [''y.yaml''])"
    using execute_returns(1,2) [OF v1 b] by simp_all
  from r1 r2 v2 show ?thesis by simp
qed

theorem separate_declarations_accumulate_witness:
  "init action_init_ok (Items [Text ''x.yaml'']) no_kwargs
     = Inr \<lparr>input_files = [[TextSubstitution ''x.yaml'']]\<rparr> \<and>
   init action_init_ok (Items [Text ''y.yaml'']) no_kwargs
     = Inr \<lparr>input_files = [[TextSubstitution ''y.yaml'']]\<rparr> \<and>
   read_global_params world_bound = Some [Str ''first.yaml''] \<and>
   read_global_params
     (snd (execute \<lparr>input_files = [[TextSubstitution ''y.yaml'']]\<rparr>
        (snd (execute \<lparr>input_files = [[TextSubstitution ''x.yaml'']]\<rparr> world_bound))))
     = Some [Str ''first.yaml'', Str ''x.yaml'', Str ''y.yaml'']"
proof -
  have h1: "init action_init_ok (Items [Text ''x.yaml'']) no_kwargs
              = Inr \<lparr>input_files = [[TextSubstitution ''x.yaml'']]\<rparr>"
    by (simp add: init_def action_init_ok_def)
  have h2: "init action_init_ok (Items [Text ''y.yaml'']) no_kwargs
              = Inr \<lparr>input_files = [[TextSubstitution ''y.yaml'']]\<rparr>"
    by (simp add: init_def action_init_ok_def)
  have h3: "read_global_params world_bound = Some [Str ''first.yaml'']"
    by (simp add: read_global_params_def list_of_def world_bound_def)
  from separate_declarations_accumulate [OF h1 h2 h3] h1 h2 h3 show ?thesis by simp
qed

subsection \<open>C6: what \<open>execute\<close> leaves alone\<close>




subsection \<open>C8: an error in the middle of the loop\<close>

text \<open>
  C8. Let the stored sequences be \<open>pre\<close>, then \<open>bad\<close>, then \<open>rest\<close>, where the
  sequences of \<open>pre\<close> resolve to \<open>names\<close> and \<open>bad\<close> raises \<open>e\<close>, in a state whose key
  \<^verbatim>\<open>global_params\<close> is absent or bound to a list read as \<open>prior\<close>. Then \<^verbatim>\<open>execute\<close> raises
  \<open>e\<close> and the write-back of line 87 does not run, so the context object is as before.
  Where the key was bound, its list has kept the names appended before the error
  (\<open>prior\<close> followed by \<open>names\<close>): the effect is not undone. Where the key was absent, the
  names went to a list that nothing refers to; the key is still absent and every list
  object of the store is as before.
\<close>

theorem execute_error_is_not_atomic:
  assumes "input_files self = pre @ bad # rest"
      and "map (perform_substitutions (ctx w)) pre = map Inr names"
      and "perform_substitutions (ctx w) bad = Inl e"
      and "read_global_params w = Some prior"
  shows "fst (execute self w) = Inl e \<and>
         ctx (snd (execute self w)) = ctx w \<and>
         (case launch_configurations (ctx w) ''global_params'' of
            Some v \<Rightarrow>
              read_global_params (snd (execute self w)) = Some (prior @ map Str names)
          | None \<Rightarrow>
              read_global_params (snd (execute self w)) = Some [] \<and>
              take (length (store w)) (store (snd (execute self w))) = store w)"
proof -
  note r = execute_raises [OF assms(4) assms(1) assms(2) assms(3)]
  have "case launch_configurations (ctx w) ''global_params'' of
            Some v \<Rightarrow>
              read_global_params (snd (execute self w)) = Some (prior @ map Str names)
          | None \<Rightarrow>
              read_global_params (snd (execute self w)) = Some [] \<and>
              take (length (store w)) (store (snd (execute self w))) = store w"
    using r(2,3) by (simp add: read_global_params_def split: option.splits)
  with r(1,2) show ?thesis by simp
qed

theorem execute_error_is_not_atomic_witness:
  "input_files \<lparr>input_files = [[TextSubstitution ''b.yaml''], [env_var ''MISSING''],
                                [TextSubstitution ''c.yaml'']]\<rparr>
     = [[TextSubstitution ''b.yaml'']] @ [env_var ''MISSING''] # [[TextSubstitution ''c.yaml'']] \<and>
   map (perform_substitutions (ctx world_bound)) [[TextSubstitution ''b.yaml'']]
     = map Inr [''b.yaml''] \<and>
   perform_substitutions (ctx world_bound) [env_var ''MISSING'']
     = Inl (SubstitutionResolutionError ''MISSING'') \<and>
   read_global_params world_bound = Some [Str ''first.yaml''] \<and>
   map (perform_substitutions (ctx world_absent)) [[TextSubstitution ''b.yaml'']]
     = map Inr [''b.yaml''] \<and>
   perform_substitutions (ctx world_absent) [env_var ''MISSING'']
     = Inl (SubstitutionResolutionError ''MISSING'') \<and>
   read_global_params world_absent = Some [] \<and>
   fst (execute \<lparr>input_files = [[TextSubstitution ''b.yaml''], [env_var ''MISSING''],
                                 [TextSubstitution ''c.yaml'']]\<rparr> world_bound)
     = Inl (SubstitutionResolutionError ''MISSING'') \<and>
   read_global_params
     (snd (execute \<lparr>input_files = [[TextSubstitution ''b.yaml''], [env_var ''MISSING''],
                                   [TextSubstitution ''c.yaml'']]\<rparr> world_bound))
     = Some [Str ''first.yaml'', Str ''b.yaml''] \<and>
   fst (execute \<lparr>input_files = [[TextSubstitution ''b.yaml''], [env_var ''MISSING''],
                                 [TextSubstitution ''c.yaml'']]\<rparr> world_absent)
     = Inl (SubstitutionResolutionError ''MISSING'') \<and>
   ctx (snd (execute \<lparr>input_files = [[TextSubstitution ''b.yaml''], [env_var ''MISSING''],
                                 [TextSubstitution ''c.yaml'']]\<rparr> world_absent))
     = ctx world_absent \<and>
   take (length (store world_absent))
     (store (snd (execute \<lparr>input_files = [[TextSubstitution ''b.yaml''], [env_var ''MISSING''],
                                 [TextSubstitution ''c.yaml'']]\<rparr> world_absent)))
     = store world_absent"
proof -
  let ?self = "\<lparr>input_files = [[TextSubstitution ''b.yaml''], [env_var ''MISSING''],
                                [TextSubstitution ''c.yaml'']]\<rparr>"
  have h1: "input_files ?self
     = [[TextSubstitution ''b.yaml'']] @ [env_var ''MISSING''] # [[TextSubstitution ''c.yaml'']]"
    by simp
  have h2: "map (perform_substitutions (ctx world_bound)) [[TextSubstitution ''b.yaml'']]
     = map Inr [''b.yaml'']" by simp
  have h3: "perform_substitutions (ctx world_bound) [env_var ''MISSING'']
     = Inl (SubstitutionResolutionError ''MISSING'')"
    by (simp add: env_var_def world_bound_def)
  have h4: "read_global_params world_bound = Some [Str ''first.yaml'']"
    by (simp add: read_global_params_def list_of_def world_bound_def)
  have g2: "map (perform_substitutions (ctx world_absent)) [[TextSubstitution ''b.yaml'']]
     = map Inr [''b.yaml'']" by simp
  have g3: "perform_substitutions (ctx world_absent) [env_var ''MISSING'']
     = Inl (SubstitutionResolutionError ''MISSING'')"
    by (simp add: env_var_def world_absent_def)
  have g4: "read_global_params world_absent = Some []"
    by (simp add: read_global_params_def world_absent_def)
  have b: "launch_configurations (ctx world_bound) ''global_params'' = Some (Ref 1)"
    by (simp add: world_bound_def)
  have a: "launch_configurations (ctx world_absent) ''global_params'' = None"
    by (simp add: world_absent_def)
  from execute_error_is_not_atomic [OF h1 h2 h3 h4]
       execute_error_is_not_atomic [OF h1 g2 g3 g4] h1 h2 h3 h4 g2 g3 g4 a b
  show ?thesis by simp
qed

subsection \<open>C9: a completed execution binds the key\<close>

text \<open>
  C9. After every call of \<^verbatim>\<open>execute\<close> that returns normally the key \<^verbatim>\<open>global_params\<close> is
  bound, since line 87 is unconditional. An action with no file names always returns
  normally, and where the key was absent it leaves the key bound to a new list object
  that is empty.
\<close>

theorem completed_execute_binds_global_params:
  "(fst (execute self w) = Inr () \<longrightarrow>
      launch_configurations (ctx (snd (execute self w))) ''global_params'' \<noteq> None) \<and>
   (input_files self = [] \<longrightarrow>
      fst (execute self w) = Inr () \<and>
      (launch_configurations (ctx w) ''global_params'' = None \<longrightarrow>
         launch_configurations (ctx (snd (execute self w))) ''global_params''
           = Some (Ref (length (store w))) \<and>
         read_global_params (snd (execute self w)) = Some []))"
proof -
  have "launch_configurations (ctx (snd (execute self w))) ''global_params'' \<noteq> None"
    if "fst (execute self w) = Inr ()"
    using execute_returned_binds [OF that] by simp
  moreover have "fst (execute self w) = Inr () \<and>
      (launch_configurations (ctx w) ''global_params'' = None \<longrightarrow>
         launch_configurations (ctx (snd (execute self w))) ''global_params''
           = Some (Ref (length (store w))) \<and>
         read_global_params (snd (execute self w)) = Some [])"
    if "input_files self = []"
    by (simp add: execute_no_files [OF that] dict_get_def read_global_params_def list_of_def)
  ultimately show ?thesis by blast
qed

theorem completed_execute_binds_global_params_witness:
  "input_files \<lparr>input_files = []\<rparr> = [] \<and>
   launch_configurations (ctx world_absent) ''global_params'' = None \<and>
   fst (execute \<lparr>input_files = []\<rparr> world_absent) = Inr () \<and>
   launch_configurations (ctx (snd (execute \<lparr>input_files = []\<rparr> world_absent)))
     ''global_params'' \<noteq> None \<and>
   launch_configurations (ctx (snd (execute \<lparr>input_files = []\<rparr> world_absent)))
     ''global_params'' = Some (Ref 1) \<and>
   read_global_params (snd (execute \<lparr>input_files = []\<rparr> world_absent)) = Some []"
proof -
  have h1: "input_files \<lparr>input_files = []\<rparr> = []" by simp
  have h2: "launch_configurations (ctx world_absent) ''global_params'' = None"
    by (simp add: world_absent_def)
  have l: "length (store world_absent) = 1" by (simp add: world_absent_def)
  from completed_execute_binds_global_params [of "\<lparr>input_files = []\<rparr>" world_absent] h1 h2 l
  show ?thesis by simp
qed

subsection \<open>C7: the constructor\<close>

text \<open>
  C7. Once the constructor of the base class has accepted the keyword arguments,
  \<^verbatim>\<open>__init__\<close> normalizes the elements of \<open>filenames\<close> one by one, in the order given, and
  stores one sequence per element in that order. If some element is not acceptable to
  the normalizer (it is neither a text, nor a substitution, nor a list of these), the
  construction fails with \<open>InvalidSubstitutionInput\<close>. The constructor takes no state
  and returns none: no execution context exists when it runs.
\<close>

theorem init_normalizes_each_filename:
  "init super_init (Items filenames) kw =
     (case super_init kw of
        Some e \<Rightarrow> Inl e
      | None \<Rightarrow>
          if list_all acceptable filenames
          then Inr \<lparr>input_files =
                     map (\<lambda>f. projr (normalize_to_list_of_substitutions f)) filenames\<rparr>
          else Inl InvalidSubstitutionInput)"
proof -
  have "(\<lambda>f. \<not> isl (normalize_to_list_of_substitutions f)) = acceptable"
    by (rule ext) (simp add: acceptable_iff)
  then have "init_loop filenames [] =
     (if list_all acceptable filenames
      then Inr (map (\<lambda>f. projr (normalize_to_list_of_substitutions f)) filenames)
      else Inl InvalidSubstitutionInput)"
    using init_loop_closed [of filenames "[]"] by simp
  then show ?thesis
    by (simp add: init_def split: option.splits)
qed

theorem init_normalizes_each_filename_witness:
  "init action_init_ok (Items [Text ''b.yaml'', Items [Text ''/etc/'', Subst (env_var ''NAME'')]])
       no_kwargs
     = Inr \<lparr>input_files = [[TextSubstitution ''b.yaml''],
                            [TextSubstitution ''/etc/'', env_var ''NAME'']]\<rparr> \<and>
   init action_init_ok (Items [Text ''b.yaml'', Other, Text ''a.yaml'']) no_kwargs
     = Inl InvalidSubstitutionInput"
proof -
  have ok: "action_init_ok no_kwargs = None" by (simp add: action_init_ok_def)
  have 1: "init action_init_ok
             (Items [Text ''b.yaml'', Items [Text ''/etc/'', Subst (env_var ''NAME'')]]) no_kwargs
           = Inr \<lparr>input_files = [[TextSubstitution ''b.yaml''],
                                  [TextSubstitution ''/etc/'', env_var ''NAME'']]\<rparr>"
    unfolding init_normalizes_each_filename ok by simp
  have 2: "init action_init_ok (Items [Text ''b.yaml'', Other, Text ''a.yaml'']) no_kwargs
           = Inl InvalidSubstitutionInput"
    unfolding init_normalizes_each_filename ok by simp
  from 1 2 show ?thesis by simp
qed

subsection \<open>C10: the normalizer\<close>

text \<open>
  C10. The normalizer maps a single text to the one-element sequence holding the text as
  a literal-text substitution, and a single substitution to the one-element sequence
  holding it. A list of texts and substitutions is mapped to a sequence of the same
  length, position by position: a text is wrapped as a literal-text substitution and a
  substitution is kept. The normalizer is a function of its argument alone, so it is
  deterministic and reads or changes no execution context.
\<close>

theorem normalizer_contract:
  "normalize_to_list_of_substitutions (Text t) = Inr [TextSubstitution t] \<and>
   normalize_to_list_of_substitutions (Subst s) = Inr [s] \<and>
   (list_all atomic ys \<longrightarrow>
      (\<exists>ss. normalize_to_list_of_substitutions (Items ys) = Inr ss \<and>
            length ss = length ys \<and>
            (\<forall>i < length ys.
               case ys ! i of
                 Text u \<Rightarrow> ss ! i = TextSubstitution u
               | Subst x \<Rightarrow> ss ! i = x
               | Items zs \<Rightarrow> False
               | Other \<Rightarrow> False)))"
proof -
  have seq: "\<exists>ss. normalize_to_list_of_substitutions (Items ys) = Inr ss \<and>
            length ss = length ys \<and>
            (\<forall>i < length ys.
               case ys ! i of
                 Text u \<Rightarrow> ss ! i = TextSubstitution u
               | Subst x \<Rightarrow> ss ! i = x
               | Items zs \<Rightarrow> False
               | Other \<Rightarrow> False)"
    if all: "list_all atomic ys"
  proof -
    from all have "acceptable (Items ys)" by simp
    then have "\<not> isl (normalize_each ys)" by (simp add: acceptable_iff)
    then obtain ss where ss: "normalize_each ys = Inr ss"
      by (cases "normalize_each ys") auto
    note nth = normalize_each_nth [OF ss]
    have "case ys ! i of
                 Text u \<Rightarrow> ss ! i = TextSubstitution u
               | Subst x \<Rightarrow> ss ! i = x
               | Items zs \<Rightarrow> False
               | Other \<Rightarrow> False" if i: "i < length ys" for i
    proof -
      from nth i have "normalize_element (ys ! i) = Inr (ss ! i)" by simp
      then show ?thesis by (cases "ys ! i") auto
    qed
    with ss nth show ?thesis by simp
  qed
  then show ?thesis by simp
qed

theorem normalizer_contract_witness:
  "list_all atomic [Text ''/etc/'', Subst (env_var ''NAME''), Text ''.yaml''] \<and>
   normalize_to_list_of_substitutions
       (Items [Text ''/etc/'', Subst (env_var ''NAME''), Text ''.yaml''])
     = Inr [TextSubstitution ''/etc/'', env_var ''NAME'', TextSubstitution ''.yaml'']"
proof -
  let ?ys = "[Text ''/etc/'', Subst (env_var ''NAME''), Text ''.yaml'']"
  have h: "list_all atomic ?ys" by simp
  from normalizer_contract [of _ _ ?ys, THEN conjunct2, THEN conjunct2, THEN mp, OF h]
  obtain ss where ss: "normalize_to_list_of_substitutions (Items ?ys) = Inr ss"
    and len: "length ss = length ?ys"
    and el: "\<forall>i < length ?ys.
               case ?ys ! i of
                 Text u \<Rightarrow> ss ! i = TextSubstitution u
               | Subst x \<Rightarrow> ss ! i = x
               | Items zs \<Rightarrow> False
               | Other \<Rightarrow> False"
    by blast
  from len obtain a b c where abc: "ss = [a, b, c]"
    by (cases ss; cases "tl ss"; cases "tl (tl ss)") auto
  from el [THEN spec, of 0] abc have a: "a = TextSubstitution ''/etc/''" by simp
  from el [THEN spec, of 1] abc have b: "b = env_var ''NAME''" by simp
  from el [THEN spec, of 2] abc have c: "c = TextSubstitution ''.yaml''" by simp
  show ?thesis
    unfolding ss abc a b c using h by simp
qed

subsection \<open>C2: \<open>parse\<close>\<close>

text \<open>
  The dictionary that \<^verbatim>\<open>parse\<close> returns holds the parsed attribute under the key
  \<^verbatim>\<open>filename\<close>, while the only required parameter of \<^verbatim>\<open>__init__\<close> is \<^verbatim>\<open>filenames\<close>. Unless the
  base class supplied that key, the call of the class with the returned dictionary
  raises \<^verbatim>\<open>TypeError\<close> before the body of \<^verbatim>\<open>__init__\<close> runs.
\<close>

lemma parse_kwargs_lack_filenames:
  assumes "super_parse ent = Inr base"
      and "base ''filenames'' = None"
      and "parse super_parse parse_substitution ent = Inr (cls, kw)"
  shows "call_with_kwargs super_init kw = Inl TypeError"
proof -
  from assms(1,3) obtain subs where "kw = base(''filename'' \<mapsto> Items (map Subst subs))"
    by (auto simp: parse_def split: sum.splits)
  with assms(2) show ?thesis by (simp add: call_with_kwargs_def)
qed

text \<open>
  C2 does not hold of the code. For the entity with the one attribute
  \<^verbatim>\<open>filename="a.yaml"\<close>, a base class that contributes no keyword argument and a parser that
  reads the attribute as a literal text, \<^verbatim>\<open>parse\<close> returns the class and the dictionary
  with the key \<^verbatim>\<open>filename\<close>; constructing the action from that dictionary raises
  \<^verbatim>\<open>TypeError\<close>, whatever the base-class constructor does. The same parsed value under the
  key \<^verbatim>\<open>filenames\<close>, as a one-element list, gives the declaration of one file name that
  the docstring of \<^verbatim>\<open>parse\<close> promises.
\<close>

theorem parse_kwargs_rejected_by_constructor:
  "parse (\<lambda>ent. Inr no_kwargs) (\<lambda>a. Inr [TextSubstitution a]) [''filename'' \<mapsto> ''a.yaml'']
     = Inr (SetParametersFromFiles_class,
            no_kwargs(''filename'' \<mapsto> Items [Subst (TextSubstitution ''a.yaml'')])) \<and>
   call_with_kwargs super_init
       (no_kwargs(''filename'' \<mapsto> Items [Subst (TextSubstitution ''a.yaml'')]))
     = Inl TypeError \<and>
   call_with_kwargs action_init_ok
       (no_kwargs(''filenames'' \<mapsto> Items [Items [Subst (TextSubstitution ''a.yaml'')]]))
     = Inr \<lparr>input_files = [[TextSubstitution ''a.yaml'']]\<rparr>"
  by (simp add: parse_def get_attr_def call_with_kwargs_def no_kwargs_def init_def
        action_init_ok_def)

end
